theory Spec2Isabelle
  imports Complex_Main "HOL-Library.Word"
begin

section \<open>JavaScript values used by the launcher front end\<close>

text \<open>
  A JavaScript string is a sequence of UTF-16 code units. String literals of the source
  are ASCII and are written through \<open>js\<close>.
\<close>

type_synonym code_unit = "16 word"
type_synonym js_string = "code_unit list"

definition js :: "string \<Rightarrow> js_string" where
  "js s = map of_char s"

text \<open>
  A JavaScript number is an IEEE 754 double: \<open>NaN\<close>, one of the two infinities, or a
  finite double, kept as the rational it is equal to. Negative zero is \<open>Num 0\<close>:
  \<open>JSON.stringify\<close> writes both zeros as \<open>0\<close>.
\<close>

datatype js_number = NaN | PosInfinity | NegInfinity | Num rat

text \<open>
  The Number value of a positive rational \<open>p / q\<close>: the double nearest to it, ties to
  the even significand, and an infinity from \<open>2^1024\<close> on. \<open>bit_length n\<close> is the
  number of binary digits of \<open>n\<close>, and \<open>binary_exponent p q\<close> is the \<open>e\<close> with
  \<open>2^e \<le> p / q < 2^(e + 1)\<close>. A double with exponent \<open>e\<close> is a multiple of
  \<open>2^(e - 52)\<close>, and of \<open>2^(- 1074)\<close> below the normal range.
\<close>

fun bit_length :: "nat \<Rightarrow> nat" where
  "bit_length n = (if n = 0 then 0 else Suc (bit_length (n div 2)))"

declare bit_length.simps [simp del]

definition binary_exponent :: "nat \<Rightarrow> nat \<Rightarrow> int" where
  "binary_exponent p q =
     (if q \<le> p then int (bit_length (p div q)) - 1
      else - int (bit_length ((q + p - 1) div p - 1)))"

definition round_half_even :: "nat \<Rightarrow> nat \<Rightarrow> nat" where
  "round_half_even num den =
     (let f = num div den; r = num mod den
      in if 2 * r < den then f
         else if den < 2 * r then f + 1
         else if even f then f else f + 1)"

definition to_double :: "bool \<Rightarrow> nat \<Rightarrow> nat \<Rightarrow> js_number" where
  "to_double neg p q =
     (if p = 0 then Num 0
      else
        (let e = max (binary_exponent p q) (- 1022);
             s = e - 52;
             n = (if 0 \<le> s then round_half_even p (q * 2 ^ nat s)
                  else round_half_even (p * 2 ^ nat (- s)) q);
             v = of_nat n * 2 powi s
         in if 2 ^ 1024 \<le> v then (if neg then NegInfinity else PosInfinity)
            else Num (if neg then - v else v)))"

text \<open>
  \<open>WhiteSpace\<close> and \<open>LineTerminator\<close> of ECMAScript: the code units that
  \<open>String.prototype.trim\<close>, \<open>parseInt\<close> and \<open>parseFloat\<close> skip.
\<close>

definition is_white_space :: "code_unit \<Rightarrow> bool" where
  "is_white_space c =
     (c = 0x09 \<or> c = 0x0A \<or> c = 0x0B \<or> c = 0x0C \<or> c = 0x0D \<or> c = 0x20 \<or> c = 0xA0
      \<or> c = 0x1680 \<or> (0x2000 \<le> c \<and> c \<le> 0x200A) \<or> c = 0x2028 \<or> c = 0x2029
      \<or> c = 0x202F \<or> c = 0x205F \<or> c = 0x3000 \<or> c = 0xFEFF)"

definition trim :: "js_string \<Rightarrow> js_string" where
  "trim s = rev (dropWhile is_white_space (rev (dropWhile is_white_space s)))"

definition is_digit :: "code_unit \<Rightarrow> bool" where
  "is_digit c = (0x30 \<le> c \<and> c \<le> 0x39)"

definition digit_value :: "code_unit \<Rightarrow> nat" where
  "digit_value c =
     (if is_digit c then unat c - 48
      else if 0x61 \<le> c \<and> c \<le> 0x7A then unat c - 87
      else unat c - 55)"

definition is_radix_digit :: "nat \<Rightarrow> code_unit \<Rightarrow> bool" where
  "is_radix_digit r c =
     ((is_digit c \<or> (0x61 \<le> c \<and> c \<le> 0x7A) \<or> (0x41 \<le> c \<and> c \<le> 0x5A))
      \<and> digit_value c < r)"

fun radix_value :: "nat \<Rightarrow> nat \<Rightarrow> js_string \<Rightarrow> nat" where
  "radix_value r acc [] = acc"
| "radix_value r acc (c # cs) = radix_value r (acc * r + digit_value c) cs"

fun starts_with :: "js_string \<Rightarrow> js_string \<Rightarrow> bool" where
  "starts_with [] s = True"
| "starts_with (p # ps) [] = False"
| "starts_with (p # ps) (c # cs) = (p = c \<and> starts_with ps cs)"

text \<open>The sign of a numeric text: whether it is negative, and the text after the sign.\<close>

fun split_sign :: "js_string \<Rightarrow> bool \<times> js_string" where
  "split_sign [] = (False, [])"
| "split_sign (c # cs) =
     (if c = 0x2D then (True, cs) else if c = 0x2B then (False, cs) else (False, c # cs))"

text \<open>
  \<open>parseInt(string)\<close> with no radix argument: leading white space is skipped, a sign
  is read, a \<open>0x\<close> or \<open>0X\<close> prefix selects radix 16, and the longest run of digits
  of the radix is the value, as a double; no digit gives \<open>NaN\<close>.
\<close>

definition parseInt :: "js_string \<Rightarrow> js_number" where
  "parseInt s =
     (let (neg, t) = split_sign (dropWhile is_white_space s);
          hex = (starts_with (js ''0x'') t \<or> starts_with (js ''0X'') t);
          r = (if hex then 16 else 10);
          u = (if hex then drop 2 t else t);
          z = takeWhile (is_radix_digit r) u
      in if z = [] then NaN else to_double neg (radix_value r 0 z) 1)"

text \<open>The exponent part of a decimal literal: \<open>e\<close> or \<open>E\<close>, a sign, digits.\<close>

fun exponent_part :: "js_string \<Rightarrow> int" where
  "exponent_part [] = 0"
| "exponent_part (c # cs) =
     (if c = 0x65 \<or> c = 0x45 then
        (let (neg, t) = split_sign cs; ds = takeWhile is_digit t
         in if ds = [] then 0
            else (if neg then - 1 else 1) * int (radix_value 10 0 ds))
      else 0)"

text \<open>
  \<open>parseFloat(string)\<close>: leading white space is skipped and the longest prefix that
  is a \<open>StrDecimalLiteral\<close> is read; no such prefix gives \<open>NaN\<close>. The digits
  \<open>m\<close> of the integer and fraction parts and the decimal exponent \<open>k\<close> denote
  \<open>m * 10^k\<close>, and the result is the double of that value.
\<close>

definition parseFloat :: "js_string \<Rightarrow> js_number" where
  "parseFloat s =
     (let (neg, t) = split_sign (dropWhile is_white_space s)
      in if starts_with (js ''Infinity'') t then (if neg then NegInfinity else PosInfinity)
         else
           (let ip = takeWhile is_digit t;
                r1 = dropWhile is_digit t;
                dot = starts_with (js ''.'') r1;
                fp = (if dot then takeWhile is_digit (tl r1) else []);
                r2 = (if dot then dropWhile is_digit (tl r1) else r1)
            in if ip = [] \<and> fp = [] then NaN
               else
                 (let m = radix_value 10 0 (ip @ fp);
                      k = exponent_part r2 - int (length fp)
                  in if 0 \<le> k then to_double neg (m * 10 ^ nat k) 1
                     else to_double neg m (10 ^ nat (- k)))))"

text \<open>
  \<open>Number::toString\<close> on a non-negative integer below \<open>10^21\<close>: its decimal digits.
  The launcher turns only list lengths and option values into text.
\<close>

fun nat_to_string :: "nat \<Rightarrow> js_string" where
  "nat_to_string n =
     (if n < 10 then [of_nat (48 + n)]
      else nat_to_string (n div 10) @ [of_nat (48 + n mod 10)])"

declare nat_to_string.simps [simp del]

text \<open>
  JSON values, as \<open>JSON.stringify\<close> writes them and \<open>res.json()\<close> reads them. An
  object keeps its properties in order; reading a property that is absent gives
  \<open>undefined\<close>, which is \<open>None\<close> here.
\<close>

datatype json = JNull | JBool bool | JNum rat | JStr js_string
  | JArr "json list" | JObj "(string \<times> json) list"

type_synonym js_object = "(string \<times> json) list"

definition get_prop :: "js_object \<Rightarrow> string \<Rightarrow> json option" where
  "get_prop obj k = map_of obj k"

text \<open>\<open>JSON.stringify\<close> writes \<open>NaN\<close> and the infinities as \<open>null\<close>.\<close>

fun json_number :: "js_number \<Rightarrow> json" where
  "json_number (Num q) = JNum q"
| "json_number NaN = JNull"
| "json_number PosInfinity = JNull"
| "json_number NegInfinity = JNull"

section \<open>The campaign launcher page (\<open>LaunchPage\<close> of \<open>App.jsx\<close>)\<close>

text \<open>
  Account identifiers are the registry's integer keys, read from the JSON of
  \<open>/api/accounts\<close>. On such values \<open>Array.prototype.includes\<close> (SameValueZero) and
  \<open>!==\<close> agree with equality: they differ only at \<open>NaN\<close>, which JSON cannot carry.
\<close>

type_synonym account_id = int

record account =
  acc_id :: account_id
  acc_name :: "js_string option"
  organization_name :: "js_string option"

record campaign =
  name :: js_string
  objective :: js_number
  daily_budget :: js_string
  status :: js_number

datatype toast_type = ErrorToast | WarningToast | SuccessToast

record launch_result =
  succeeded :: "js_object list"
  failed :: "js_object list"

record launch_page =
  accounts :: "account list"
  selectedAccounts :: "account_id list"
  launching :: bool
  toast :: "(js_string \<times> toast_type) option"
  results :: "launch_result option"
  campaign :: campaign

text \<open>The state \<open>useState\<close> gives the page when it mounts, with the accounts loaded.\<close>

definition initial_campaign :: campaign where
  "initial_campaign = \<lparr>name = [], objective = Num 2, daily_budget = [], status = Num 1\<rparr>"

definition initial_page :: "account list \<Rightarrow> launch_page" where
  "initial_page accs =
     \<lparr>accounts = accs, selectedAccounts = [], launching = False, toast = None,
      results = None, campaign = initial_campaign\<rparr>"

subsection \<open>Selecting accounts\<close>

text \<open>
  \<open>toggleAccount\<close> passes \<open>setSelectedAccounts\<close> an updater of the previous selection;
  \<open>toggle_update\<close> is that updater.
\<close>

definition toggle_update :: "account_id \<Rightarrow> account_id list \<Rightarrow> account_id list" where
  "toggle_update x prev = (if x \<in> set prev then filter (\<lambda>y. y \<noteq> x) prev else prev @ [x])"

definition toggleAccount :: "account_id \<Rightarrow> launch_page \<Rightarrow> launch_page" where
  "toggleAccount x st = st\<lparr>selectedAccounts := toggle_update x (selectedAccounts st)\<rparr>"

definition selectAll :: "launch_page \<Rightarrow> launch_page" where
  "selectAll st =
     (if length (selectedAccounts st) = length (accounts st)
      then st\<lparr>selectedAccounts := []\<rparr>
      else st\<lparr>selectedAccounts := map acc_id (accounts st)\<rparr>)"

text \<open>
  The clicks of the account panel, each handled against the state of the latest render.
\<close>

datatype selection_op = Toggle account_id | SelectAll

fun apply_selection_op :: "launch_page \<Rightarrow> selection_op \<Rightarrow> launch_page" where
  "apply_selection_op st (Toggle x) = toggleAccount x st"
| "apply_selection_op st SelectAll = selectAll st"

definition run_selection :: "account list \<Rightarrow> selection_op list \<Rightarrow> launch_page" where
  "run_selection accs ops = foldl apply_selection_op (initial_page accs) ops"

subsection \<open>The campaign settings form\<close>

text \<open>The options of the objective \<open>select\<close>: value and label.\<close>

definition objectives :: "(nat \<times> string) list" where
  "objectives = [(1, ''Awareness''), (2, ''Traffic''), (3, ''App Install''),
                 (4, ''Lead Generation'')]"

text \<open>
  Each \<open>option\<close> element carries its value as text; \<open>e.target.value\<close> of the
  \<open>select\<close> is the text of the chosen option.
\<close>

definition option_values :: "js_string list" where
  "option_values = map (\<lambda>(v, l). nat_to_string v) objectives"

datatype form_event =
    NameInput js_string
  | ObjectiveSelect js_string
  | BudgetInput js_string
  | StatusCheck bool

fun apply_form_event :: "campaign \<Rightarrow> form_event \<Rightarrow> campaign" where
  "apply_form_event c (NameInput v) = c\<lparr>name := v\<rparr>"
| "apply_form_event c (ObjectiveSelect v) = c\<lparr>objective := parseInt v\<rparr>"
| "apply_form_event c (BudgetInput v) = c\<lparr>daily_budget := v\<rparr>"
| "apply_form_event c (StatusCheck checked) =
     c\<lparr>status := (if checked then Num 1 else Num 2)\<rparr>"

text \<open>
  An event the rendered form can raise: the \<open>select\<close> reports only the value of one
  of its options. The text inputs and the checkbox report any value.
\<close>

fun offered_by_form :: "form_event \<Rightarrow> bool" where
  "offered_by_form (ObjectiveSelect v) = (v \<in> set option_values)"
| "offered_by_form (NameInput v) = True"
| "offered_by_form (BudgetInput v) = True"
| "offered_by_form (StatusCheck checked) = True"

definition fill_form :: "form_event list \<Rightarrow> launch_page \<Rightarrow> launch_page" where
  "fill_form evs st = st\<lparr>campaign := foldl apply_form_event (campaign st) evs\<rparr>"

subsection \<open>Launching\<close>

text \<open>
  \<open>campaign.daily_budget ? parseFloat(campaign.daily_budget) : null\<close>: the empty
  string is the only string that is not truthy; \<open>None\<close> is \<open>null\<close>.
\<close>

definition budget_value :: "js_string \<Rightarrow> js_number option" where
  "budget_value b = (if b \<noteq> [] then Some (parseFloat b) else None)"

text \<open>
  The object \<open>handleLaunch\<close> passes to \<open>api.post\<close>, as \<open>JSON.stringify\<close> writes it
  into the request body: the campaign state spread, with \<open>daily_budget\<close> replaced.
\<close>

definition launch_payload :: "launch_page \<Rightarrow> json" where
  "launch_payload st =
     JObj [(''account_ids'', JArr (map (\<lambda>i. JNum (of_int i)) (selectedAccounts st))),
           (''campaign'',
            JObj [(''name'', JStr (name (campaign st))),
                  (''objective'', json_number (objective (campaign st))),
                  (''daily_budget'',
                   (case budget_value (daily_budget (campaign st)) of
                      None \<Rightarrow> JNull
                    | Some v \<Rightarrow> json_number v)),
                  (''status'', json_number (status (campaign st)))])]"

text \<open>
  \<open>handleLaunch\<close>. The first argument stands for \<open>api.post\<close> and the server behind
  it: \<open>Inl\<close> is the error it throws on a response that is not ok, \<open>Inr\<close> the parsed
  response, an object with the arrays \<open>succeeded\<close> and \<open>failed\<close>. The result is the
  page state after the handler and the list of POST requests it has issued (URL and
  body).
\<close>

definition handleLaunch ::
  "(string \<Rightarrow> json \<Rightarrow> js_string + launch_result) \<Rightarrow> launch_page
     \<Rightarrow> launch_page \<times> (string \<times> json) list" where
  "handleLaunch post st =
     (if length (selectedAccounts st) = 0 then
        (st\<lparr>toast := Some (js ''Select at least one account'', ErrorToast)\<rparr>, [])
      else if trim (name (campaign st)) = [] then
        (st\<lparr>toast := Some (js ''Enter a campaign name'', ErrorToast)\<rparr>, [])
      else
        (let st1 = st\<lparr>launching := True, results := None\<rparr>;
             body = launch_payload st
         in case post ''/api/bulk-launch'' body of
              Inr result \<Rightarrow>
                (st1\<lparr>results := Some result,
                     toast := Some (js ''Launched to '' @ nat_to_string (length (succeeded result))
                                      @ js '' accounts'',
                                    if length (failed result) > 0 then WarningToast else SuccessToast),
                     launching := False\<rparr>,
                 [(''/api/bulk-launch'', body)])
            | Inl err \<Rightarrow>
                (st1\<lparr>toast := Some (js ''Launch failed'', ErrorToast), launching := False\<rparr>,
                 [(''/api/bulk-launch'', body)])))"

text \<open>Reading a property of a JSON object in a request body.\<close>

fun json_field :: "json \<Rightarrow> string \<Rightarrow> json option" where
  "json_field (JObj ps) k = map_of ps k"
| "json_field j k = None"

definition campaign_field :: "json \<Rightarrow> string \<Rightarrow> json option" where
  "campaign_field body k =
     (case json_field body ''campaign'' of None \<Rightarrow> None | Some c \<Rightarrow> json_field c k)"

subsection \<open>The results view\<close>

text \<open>
  The JSX of the results card as a tree: literal text, an embedded expression with the
  value it evaluates to (\<open>None\<close> is \<open>undefined\<close>), a template literal with its parts,
  and an element with its children. Class names are left out.
\<close>

datatype node =
    Text js_string
  | Value "json option"
  | Template "node list"
  | Element string "node list"


definition succeeded_row :: "js_object \<Rightarrow> node" where
  "succeeded_row r =
     Element ''div''
       [Element ''span'' [Value (get_prop r ''account_name'')],
        Element ''span'' [Text ([0x20, 0x2022, 0x20] @ js ''Campaign ID: ''),
                          Value (get_prop r ''campaign_id'')]]"



text \<open>The values of the embedded expressions of a tree, in document order.\<close>

fun values_shown :: "node \<Rightarrow> json option list" where
  "values_shown (Text s) = []"
| "values_shown (Value v) = [v]"
| "values_shown (Template ns) = concat (map values_shown ns)"
| "values_shown (Element t ns) = concat (map values_shown ns)"

text \<open>
  What a tree puts on the page, in document order: its literal texts and the values of
  its embedded expressions.
\<close>

datatype leaf = Shown_text js_string | Shown_value "json option"

fun leaves :: "node \<Rightarrow> leaf list" where
  "leaves (Text s) = [Shown_text s]"
| "leaves (Value v) = [Shown_value v]"
| "leaves (Template ns) = concat (map leaves ns)"
| "leaves (Element t ns) = concat (map leaves ns)"

section \<open>The accounts page (\<open>AccountsPage\<close> of \<open>App.jsx\<close>)\<close>

text \<open>\<open>s.includes(t)\<close>: \<open>t\<close> occurs in \<open>s\<close> as a run of consecutive code units.\<close>

fun js_includes :: "js_string \<Rightarrow> js_string \<Rightarrow> bool" where
  "js_includes [] t = starts_with t []"
| "js_includes (c # cs) t = (starts_with t (c # cs) \<or> js_includes cs t)"

text \<open>
  \<open>v?.toLowerCase().includes(filter.toLowerCase())\<close>: on \<open>null\<close> or \<open>undefined\<close> the
  optional chain stops and the whole expression is \<open>undefined\<close> (\<open>None\<close>). The case
  mapping of \<open>toLowerCase\<close>, a Unicode table of the JavaScript engine, is the parameter
  \<open>lower\<close>.
\<close>

definition field_matches ::
  "(js_string \<Rightarrow> js_string) \<Rightarrow> js_string \<Rightarrow> js_string option \<Rightarrow> bool option" where
  "field_matches lower flt v =
     (case v of None \<Rightarrow> None | Some s \<Rightarrow> Some (js_includes (lower s) (lower flt)))"

text \<open>\<open>a || b\<close> is \<open>a\<close> when \<open>a\<close> is truthy and \<open>b\<close> otherwise.\<close>

definition js_or :: "bool option \<Rightarrow> bool option \<Rightarrow> bool option" where
  "js_or a b = (if a = Some True then a else b)"

definition filteredAccounts ::
  "(js_string \<Rightarrow> js_string) \<Rightarrow> js_string \<Rightarrow> account list \<Rightarrow> account list" where
  "filteredAccounts lower flt accs =
     filter (\<lambda>acc. js_or (field_matches lower flt (acc_name acc))
                          (field_matches lower flt (organization_name acc)) = Some True)
            accs"

text \<open>The case mapping on the letters A to Z, as every \<open>toLowerCase\<close> has it.\<close>

definition ascii_lower :: "js_string \<Rightarrow> js_string" where
  "ascii_lower s = map (\<lambda>c. if 0x41 \<le> c \<and> c \<le> 0x5A then c + 0x20 else c) s"

section \<open>The bulk dispatch engine behind \<open>/api/bulk-launch\<close>\<close>

text \<open>
  The server side of \<open>/api/bulk-launch\<close> (\<open>backend/main.py\<close> and
  \<open>backend/newsbreak_client.py\<close> of the project structure) is not among the sources.
  The definitions of this section follow the specification of the dispatch engine
  (sections 3, 4 and 7), component by component.
\<close>

text \<open>
  Modelled from the spec: the error taxonomy of section 7 and the per-account outcome of
  section 3, whose server-side declarations are absent from the sources.
\<close>

datatype error_kind =
    CredentialNotFound | CredentialInactive | ValidationRejected
  | RateLimited | Timeout | NetworkError | PersistenceWarning

datatype account_outcome = Success string | Failure error_kind string

text \<open>
  Modelled from the spec: the answer of the external advertising API to one
  campaign-creation call, of which no client code is among the sources. It is either
  the identifier of the created remote campaign or a structured error, here already
  classified into the taxonomy of section 7.
\<close>

datatype api_response = Created string | Rejected error_kind string

text \<open>
  Modelled from the spec: the retry classification of section 4.2 and section 7, absent
  from the sources. Rate limiting, network errors and timeouts are transient; every
  other kind is not.
\<close>

fun transient :: "error_kind \<Rightarrow> bool" where
  "transient RateLimited = True"
| "transient NetworkError = True"
| "transient Timeout = True"
| "transient CredentialNotFound = False"
| "transient CredentialInactive = False"
| "transient ValidationRejected = False"
| "transient PersistenceWarning = False"

text \<open>
  Modelled from the spec: the External API Adapter of section 4.2, absent from the
  sources. \<open>call k\<close> is the answer of the external API to call number \<open>k\<close> for this
  account (counted from 0). A transient failure is retried while retries are left; a
  success or a non-transient failure is returned at once. The result is the outcome and
  the number of calls made when the adapter returns.
\<close>

fun adapter :: "(nat \<Rightarrow> api_response) \<Rightarrow> nat \<Rightarrow> nat \<Rightarrow> account_outcome \<times> nat" where
  "adapter call 0 k =
     (case call k of
        Created rid \<Rightarrow> (Success rid, Suc k)
      | Rejected e m \<Rightarrow> (Failure e m, Suc k))"
| "adapter call (Suc retries) k =
     (case call k of
        Created rid \<Rightarrow> (Success rid, Suc k)
      | Rejected e m \<Rightarrow>
          (if transient e then adapter call retries (Suc k) else (Failure e m, Suc k)))"

text \<open>
  Modelled from the spec: the account registry and the credential store of section 6,
  external collaborators that are absent from the sources, and the Credential Resolver
  of section 4.1 over them.
\<close>

record registry_entry =
  remote_account_id :: string
  display_name :: string
  credential_ref :: nat

datatype credential_lookup = Active string | Inactive | NotFound

definition resolve_credential ::
  "(account_id \<Rightarrow> registry_entry option) \<Rightarrow> (nat \<Rightarrow> credential_lookup) \<Rightarrow> account_id
     \<Rightarrow> error_kind + registry_entry \<times> string" where
  "resolve_credential registry store a =
     (case registry a of
        None \<Rightarrow> Inl CredentialNotFound
      | Some entry \<Rightarrow>
          (case store (credential_ref entry) of
             Active cred \<Rightarrow> Inr (entry, cred)
           | Inactive \<Rightarrow> Inl CredentialInactive
           | NotFound \<Rightarrow> Inl CredentialNotFound))"

text \<open>
  Modelled from the spec: the configuration and collaborators of the Dispatch Engine
  of section 4.3, absent from the sources. \<open>external_api\<close> gives, for a remote
  account and a credential, the answers of the external API to successive calls.
\<close>

record engine =
  registry :: "account_id \<Rightarrow> registry_entry option"
  credential_store :: "nat \<Rightarrow> credential_lookup"
  external_api :: "string \<Rightarrow> string \<Rightarrow> nat \<Rightarrow> api_response"
  max_attempts :: nat

text \<open>
  Modelled from the spec: the task the Dispatch Engine runs for one account (section
  4.3), absent from the sources. A resolver failure is the outcome of the account and
  the adapter is not invoked; otherwise the adapter runs with the resolved credential.
  The result is the outcome and the number of external calls made.
\<close>

definition run_account :: "engine \<Rightarrow> account_id \<Rightarrow> account_outcome \<times> nat" where
  "run_account env a =
     (case resolve_credential (registry env) (credential_store env) a of
        Inl e \<Rightarrow> (Failure e ''credential lookup failed'', 0)
      | Inr (entry, cred) \<Rightarrow>
          adapter (external_api env (remote_account_id entry) cred) (max_attempts env - 1) 0)"

text \<open>
  Modelled from the spec: the entries of the launch report of sections 3, 4.4 and 6,
  whose server-side declarations are absent from the sources. A succeeded entry carries
  the account id, the display name and the remote campaign id; a failed entry carries the
  account id, the display name if it can be resolved, the error kind and a message.
\<close>

record succeeded_entry =
  s_account_id :: account_id
  s_account_name :: string
  remote_campaign_id :: string

record failed_entry =
  f_account_id :: account_id
  f_account_name :: "string option"
  f_error_kind :: error_kind
  f_message :: string

record launch_report =
  report_succeeded :: "succeeded_entry list"
  report_failed :: "failed_entry list"

text \<open>
  Modelled from the spec: the outcome the Result Aggregator of section 4.4 and the
  ceiling of section 4.3 give an account, absent from the sources. \<open>outcomes\<close> holds
  the outcomes of the tasks that completed, in completion order; an account with no
  completed task is recorded as a \<open>Timeout\<close> failure.
\<close>

definition outcome_of :: "(account_id \<times> account_outcome) list \<Rightarrow> account_id \<Rightarrow> account_outcome" where
  "outcome_of outcomes a =
     (case map_of outcomes a of
        Some oc \<Rightarrow> oc
      | None \<Rightarrow> Failure Timeout ''batch ceiling reached'')"

text \<open>
  Modelled from the spec: the Result Aggregator of section 4.4, absent from the
  sources. It walks the requested accounts in request order and puts the entry of each
  account into \<open>succeeded\<close> or into \<open>failed\<close>.
\<close>

fun aggregate ::
  "(account_id \<Rightarrow> registry_entry option) \<Rightarrow> (account_id \<times> account_outcome) list
     \<Rightarrow> account_id list \<Rightarrow> launch_report" where
  "aggregate reg outcomes [] = \<lparr>report_succeeded = [], report_failed = []\<rparr>"
| "aggregate reg outcomes (a # as) =
     (let rest = aggregate reg outcomes as
      in case outcome_of outcomes a of
           Success rid \<Rightarrow>
             rest\<lparr>report_succeeded :=
                    \<lparr>s_account_id = a,
                     s_account_name = (case reg a of None \<Rightarrow> [] | Some e \<Rightarrow> display_name e),
                     remote_campaign_id = rid\<rparr> # report_succeeded rest\<rparr>
         | Failure e m \<Rightarrow>
             rest\<lparr>report_failed :=
                    \<lparr>f_account_id = a, f_account_name = map_option display_name (reg a),
                     f_error_kind = e, f_message = m\<rparr> # report_failed rest\<rparr>)"

text \<open>
  Modelled from the spec: the launch request of sections 3 and 6 and the bulk-launch
  operation of section 2, absent from the sources. The request is validated before any
  dispatch (section 7); then one task runs per requested account, \<open>completed\<close> lists
  the accounts whose task finished before the ceiling, in completion order, and the
  aggregator builds the report.
\<close>

record launch_request =
  req_account_ids :: "account_id list"
  req_name :: string
  req_objective :: int
  req_daily_budget :: "rat option"
  req_status :: int

text \<open>
  Modelled from the spec: the input validation of section 7, absent from the sources.
  An empty account list, a missing campaign name and an objective outside the
  enumeration are rejected.
\<close>

definition valid_request :: "launch_request \<Rightarrow> bool" where
  "valid_request req =
     (req_account_ids req \<noteq> [] \<and> req_name req \<noteq> []
      \<and> 1 \<le> req_objective req \<and> req_objective req \<le> 4)"

definition bulk_launch ::
  "engine \<Rightarrow> launch_request \<Rightarrow> account_id list \<Rightarrow> error_kind + launch_report" where
  "bulk_launch env req completed =
     (if \<not> valid_request req then Inl ValidationRejected
      else Inr (aggregate (registry env)
                  (map (\<lambda>a. (a, fst (run_account env a)))
                       (filter (\<lambda>a. a \<in> set (req_account_ids req)) completed))
                  (req_account_ids req)))"

section \<open>Example inputs\<close>

text \<open>A launcher page with one account loaded and nothing selected.\<close>

definition page0 :: launch_page where
  "page0 = initial_page [\<lparr>acc_id = 1, acc_name = Some (js ''Acme''), organization_name = None\<rparr>]"

text \<open>
  Scenario A of section 8: accounts 1, 2 and 3 are registered, the credential of
  account 2 is inactive, and the external API creates every campaign it is asked for.
\<close>

definition scenario_engine :: engine where
  "scenario_engine =
     \<lparr>registry = (\<lambda>a. if a = 1 \<or> a = 2 \<or> a = 3
                       then Some \<lparr>remote_account_id = ''nb'', display_name = ''Acme'',
                                  credential_ref = nat a\<rparr>
                       else None),
      credential_store = (\<lambda>c. if c = 2 then Inactive else Active ''token''),
      external_api = (\<lambda>remote cred k. Created ''cmp''),
      max_attempts = 3\<rparr>"

definition scenario_request :: launch_request where
  "scenario_request =
     \<lparr>req_account_ids = [1, 2, 3], req_name = ''Sale'', req_objective = 2,
      req_daily_budget = Some 50, req_status = 1\<rparr>"

text \<open>
  An engine whose external API rejects the payload of every call, and one whose
  external API signals a rate limit on the first call and rejects the payload on the
  second.
\<close>

definition rejecting_engine :: engine where
  "rejecting_engine =
     scenario_engine\<lparr>external_api := (\<lambda>remote cred k. Rejected ValidationRejected ''bad payload'')\<rparr>"

definition throttling_engine :: engine where
  "throttling_engine =
     scenario_engine\<lparr>external_api :=
       (\<lambda>remote cred k. if k = 0 then Rejected RateLimited ''slow down''
                         else Rejected ValidationRejected ''bad payload'')\<rparr>"

text \<open>What the specification allows as a transmitted daily budget.\<close>

fun absent_or_positive :: "json option \<Rightarrow> bool" where
  "absent_or_positive (Some JNull) = True"
| "absent_or_positive (Some (JNum q)) = (0 < q)"
| "absent_or_positive v = False"

section \<open>Properties of the account selection\<close>

lemma distinct_toggle_update:
  "distinct prev \<Longrightarrow> distinct (toggle_update x prev)"
  by (simp add: toggle_update_def)

lemma accounts_apply_selection_op [simp]:
  "accounts (apply_selection_op st op) = accounts st"
  by (cases op) (simp_all add: toggleAccount_def selectAll_def)

lemma distinct_apply_selection_op:
  assumes "distinct (map acc_id (accounts st))" and "distinct (selectedAccounts st)"
  shows "distinct (selectedAccounts (apply_selection_op st op))"
proof (cases op)
  case (Toggle x)
  with assms(2) show ?thesis
    by (simp add: toggleAccount_def distinct_toggle_update)
next
  case SelectAll
  with assms(1) show ?thesis
    by (simp add: selectAll_def)
qed

lemma distinct_foldl_selection:
  assumes "distinct (map acc_id (accounts st))" and "distinct (selectedAccounts st)"
  shows "distinct (selectedAccounts (foldl apply_selection_op st ops))"
  using assms
proof (induction ops arbitrary: st)
  case Nil
  then show ?case by simp
next
  case (Cons op ops)
  have "distinct (selectedAccounts (apply_selection_op st op))"
    using Cons.prems by (rule distinct_apply_selection_op)
  moreover have "distinct (map acc_id (accounts (apply_selection_op st op)))"
    using Cons.prems(1) by simp
  ultimately show ?case
    using Cons.IH by simp
qed

text \<open>
  C8. With pairwise distinct account ids, every sequence of \<open>toggleAccount\<close> and
  \<open>selectAll\<close> operations from the empty selection leaves \<open>selectedAccounts\<close> free
  of duplicates.
\<close>

theorem selection_duplicate_free:
  assumes "distinct (map acc_id accs)"
  shows "distinct (selectedAccounts (run_selection accs ops))"
  unfolding run_selection_def
  by (rule distinct_foldl_selection) (simp_all add: initial_page_def assms)

theorem selection_duplicate_free_witness:
  "distinct (map acc_id [\<lparr>acc_id = 1, acc_name = None, organization_name = None\<rparr>,
                         \<lparr>acc_id = 2, acc_name = None, organization_name = None\<rparr>])
   \<and> distinct (selectedAccounts (run_selection
        [\<lparr>acc_id = 1, acc_name = None, organization_name = None\<rparr>,
         \<lparr>acc_id = 2, acc_name = None, organization_name = None\<rparr>]
        [Toggle 2, SelectAll, Toggle 1, Toggle 7]))
   \<and> selectedAccounts (run_selection
        [\<lparr>acc_id = 1, acc_name = None, organization_name = None\<rparr>,
         \<lparr>acc_id = 2, acc_name = None, organization_name = None\<rparr>]
        [Toggle 2, SelectAll, Toggle 1, Toggle 7]) = [2, 7]"
  using selection_duplicate_free
    [of "[\<lparr>acc_id = 1, acc_name = None, organization_name = None\<rparr>,
          \<lparr>acc_id = 2, acc_name = None, organization_name = None\<rparr>]"
        "[Toggle 2, SelectAll, Toggle 1, Toggle 7]"]
  by (simp add: run_selection_def initial_page_def toggleAccount_def selectAll_def
      toggle_update_def)

text \<open>
  C9. For a duplicate-free selection \<open>s\<close> and an account id \<open>x\<close>, the \<open>toggleAccount\<close>
  update applied twice gives a selection with the members of \<open>s\<close>: an id is in the
  result exactly when it is in \<open>s\<close>.
\<close>

theorem toggle_twice_membership:
  assumes "distinct s"
  shows "\<forall>y. y \<in> set (toggle_update x (toggle_update x s)) \<longleftrightarrow> y \<in> set s"
  by (auto simp add: toggle_update_def)

theorem toggle_twice_membership_witness:
  "distinct [3, 5, 8 :: account_id]
   \<and> toggle_update 5 (toggle_update 5 [3, 5, 8]) = [3, 8, 5]
   \<and> (\<forall>y. y \<in> set (toggle_update 5 (toggle_update 5 [3, 5, 8])) \<longleftrightarrow> y \<in> set [3, 5, 8 :: account_id])"
  using toggle_twice_membership [of "[3, 5, 8]" 5]
  by (simp add: toggle_update_def)

section \<open>Evaluating the library functions on the texts used below\<close>

lemma js_nonempty: "js (c # cs) \<noteq> []"
  by (simp add: js_def)

lemma trim_Sale: "trim (js ''Sale'') = js ''Sale''"
  by (simp add: trim_def js_def is_white_space_def)

lemma trim_blank: "trim (js ''  '') = []"
  by (simp add: trim_def js_def is_white_space_def)

lemma bit_length_eval:
  "bit_length 0 = 0"
  "bit_length 1 = 1"
  "bit_length (Suc 0) = 1"
  "bit_length (Suc (Suc 0)) = 2"
  "bit_length (numeral k) = Suc (bit_length (numeral k div 2))"
  by (simp_all add: bit_length.simps)

lemmas double_eval = to_double_def binary_exponent_def round_half_even_def Let_def
  bit_length_eval power_int_minus

lemmas parse_eval = js_def is_white_space_def is_digit_def is_radix_digit_def digit_value_def

lemma parseFloat_minus_5: "parseFloat (js ''-5'') = Num (- 5)"
  by (simp add: parseFloat_def parse_eval) (simp add: double_eval)

lemma parseFloat_12_5: "parseFloat (js ''12.5'') = Num (25 / 2)"
  by (simp add: parseFloat_def parse_eval) (simp add: double_eval)

text \<open>
  Rounding and overflow: \<open>2^53 + 1\<close> is not a double and is read as \<open>2^53\<close>, a tenth
  is read as the double nearest to it, and \<open>1e400\<close> is read as \<open>Infinity\<close>, which
  \<open>JSON.stringify\<close> writes as \<open>null\<close>.
\<close>

lemma parseFloat_2_53_plus_1:
  "parseFloat (js ''9007199254740993'') = Num 9007199254740992"
proof -
  have "parseFloat (js ''9007199254740993'') = to_double False 9007199254740993 1"
    by (simp add: parseFloat_def parse_eval)
  also have "\<dots> = Num 9007199254740992"
    by (simp add: double_eval)
  finally show ?thesis .
qed

lemma parseFloat_tenth:
  "parseFloat (js ''0.1'') = Num (3602879701896397 / 36028797018963968)"
proof -
  have "parseFloat (js ''0.1'') = to_double False 1 10"
    by (simp add: parseFloat_def parse_eval)
  also have "\<dots> = Num (3602879701896397 / 36028797018963968)"
    by (simp add: double_eval)
  finally show ?thesis .
qed

lemma parseFloat_1e400: "parseFloat (js ''1e400'') = PosInfinity"
proof -
  have "parseFloat (js ''1e400'') = to_double False (10 ^ 400) 1"
    by (simp add: parseFloat_def parse_eval)
  also have "\<dots> = PosInfinity"
    by (simp add: double_eval)
  finally show ?thesis .
qed

lemma parseInt_4: "parseInt (js ''4'') = Num 4"
  by (simp add: parseInt_def parse_eval) (simp add: double_eval)

lemma option_values_eval: "option_values = [js ''1'', js ''2'', js ''3'', js ''4'']"
  by (simp add: option_values_def objectives_def nat_to_string.simps js_def)

lemma parseInt_option_values:
  "map parseInt option_values = [Num 1, Num 2, Num 3, Num 4]"
  by (simp add: option_values_eval parseInt_def parse_eval) (simp add: double_eval)

lemma parseInt_offered:
  assumes "v \<in> set option_values"
  shows "parseInt v \<in> {Num 1, Num 2, Num 3, Num 4}"
proof -
  from assms have "parseInt v \<in> set (map parseInt option_values)" by simp
  then show ?thesis unfolding parseInt_option_values by simp
qed

lemma parseInt_nat_to_string_objectives:
  assumes "(v, l) \<in> set objectives"
  shows "parseInt (nat_to_string v) = Num (of_nat v)"
proof -
  have "parseInt (nat_to_string 1) = Num 1" "parseInt (nat_to_string 2) = Num 2"
       "parseInt (nat_to_string 3) = Num 3" "parseInt (nat_to_string 4) = Num 4"
    by (simp_all add: nat_to_string.simps parseInt_def parse_eval) (simp_all add: double_eval)
  moreover from assms have "v = 1 \<or> v = 2 \<or> v = 3 \<or> v = 4"
    by (auto simp add: objectives_def)
  ultimately show ?thesis by auto
qed

lemma js_includes_empty: "js_includes s []"
  by (cases s) simp_all

section \<open>Properties of \<open>handleLaunch\<close>\<close>

lemma requests_of_handleLaunch:
  "snd (handleLaunch post st) =
     (if selectedAccounts st \<noteq> [] \<and> trim (name (campaign st)) \<noteq> []
      then [(''/api/bulk-launch'', launch_payload st)] else [])"
  by (simp add: handleLaunch_def Let_def split: sum.splits)

lemma page0_selected:
  "selectedAccounts (fill_form evs (toggleAccount 1 page0)) = [1]"
  by (simp add: fill_form_def toggleAccount_def toggle_update_def page0_def initial_page_def)

lemma page0_unselected: "selectedAccounts (fill_form evs page0) = []"
  by (simp add: fill_form_def page0_def initial_page_def)

lemma page0_campaign: "campaign (fill_form evs (toggleAccount 1 page0)) =
    foldl apply_form_event initial_campaign evs"
  by (simp add: fill_form_def toggleAccount_def page0_def initial_page_def)

lemma page0_campaign_initial: "campaign (toggleAccount 1 page0) = initial_campaign"
  by (simp add: toggleAccount_def page0_def initial_page_def)

lemma name_fill_form: "name (campaign (fill_form [NameInput v] st)) = v"
  by (simp add: fill_form_def)

text \<open>
  C3. \<open>handleLaunch\<close> issues the POST to \<open>/api/bulk-launch\<close> exactly when the selection
  is not empty and the campaign name is not empty after trimming. Otherwise it issues
  no request, and the only change of the page state is the error toast.
\<close>

theorem handleLaunch_dispatch_guard:
  "(snd (handleLaunch post st) \<noteq> [] \<longleftrightarrow>
      selectedAccounts st \<noteq> [] \<and> trim (name (campaign st)) \<noteq> [])
   \<and> (selectedAccounts st \<noteq> [] \<and> trim (name (campaign st)) \<noteq> [] \<longrightarrow>
        snd (handleLaunch post st) = [(''/api/bulk-launch'', launch_payload st)])
   \<and> (selectedAccounts st = [] \<or> trim (name (campaign st)) = [] \<longrightarrow>
        snd (handleLaunch post st) = []
        \<and> (\<exists>m. fst (handleLaunch post st) = st\<lparr>toast := Some (m, ErrorToast)\<rparr>))"
  by (auto simp add: handleLaunch_def Let_def split: sum.splits)

theorem handleLaunch_dispatch_guard_witness:
  "snd (handleLaunch (\<lambda>url body. Inl []) (fill_form [NameInput (js ''Sale'')] page0)) = []
   \<and> snd (handleLaunch (\<lambda>url body. Inl [])
            (fill_form [NameInput (js ''  '')] (toggleAccount 1 page0))) = []
   \<and> snd (handleLaunch (\<lambda>url body. Inl [])
            (fill_form [NameInput (js ''Sale'')] (toggleAccount 1 page0)))
       = [(''/api/bulk-launch'',
           launch_payload (fill_form [NameInput (js ''Sale'')] (toggleAccount 1 page0)))]"
  using
    handleLaunch_dispatch_guard
      [of "\<lambda>url body. Inl []" "fill_form [NameInput (js ''Sale'')] page0"]
    handleLaunch_dispatch_guard
      [of "\<lambda>url body. Inl []" "fill_form [NameInput (js ''  '')] (toggleAccount 1 page0)"]
    handleLaunch_dispatch_guard
      [of "\<lambda>url body. Inl []" "fill_form [NameInput (js ''Sale'')] (toggleAccount 1 page0)"]
  by (simp add: page0_selected page0_unselected name_fill_form trim_Sale trim_blank
      js_nonempty)

subsection \<open>Objective and status\<close>

lemma campaign_field_objective:
  "campaign_field (launch_payload st) ''objective'' = Some (json_number (objective (campaign st)))"
  by (simp add: campaign_field_def launch_payload_def)

lemma campaign_field_status:
  "campaign_field (launch_payload st) ''status'' = Some (json_number (status (campaign st)))"
  by (simp add: campaign_field_def launch_payload_def)

lemma enumerated_apply_form_event:
  assumes "offered_by_form ev"
      and "objective c \<in> {Num 1, Num 2, Num 3, Num 4} \<and> status c \<in> {Num 1, Num 2}"
  shows "objective (apply_form_event c ev) \<in> {Num 1, Num 2, Num 3, Num 4}
       \<and> status (apply_form_event c ev) \<in> {Num 1, Num 2}"
  using assms by (cases ev) (auto dest: parseInt_offered)

lemma enumerated_foldl:
  assumes "list_all offered_by_form evs"
      and "objective c \<in> {Num 1, Num 2, Num 3, Num 4} \<and> status c \<in> {Num 1, Num 2}"
  shows "objective (foldl apply_form_event c evs) \<in> {Num 1, Num 2, Num 3, Num 4}
       \<and> status (foldl apply_form_event c evs) \<in> {Num 1, Num 2}"
  using assms
proof (induction evs arbitrary: c)
  case Nil
  then show ?case by simp
next
  case (Cons ev evs)
  from Cons.prems have "offered_by_form ev" and rest: "list_all offered_by_form evs"
    by simp_all
  from this(1) Cons.prems(2)
  have "objective (apply_form_event c ev) \<in> {Num 1, Num 2, Num 3, Num 4}
       \<and> status (apply_form_event c ev) \<in> {Num 1, Num 2}"
    by (rule enumerated_apply_form_event)
  from Cons.IH [OF rest this] show ?case by simp
qed

text \<open>
  C5. On every request that \<open>handleLaunch\<close> submits after the form has been filled
  from its initial state, the objective is one of the integers 1 to 4 of the option
  table (Awareness 1, Traffic 2, App Install 3, Lead Generation 4) and the status is 1
  or 2: choosing an option stores its integer, ticking the checkbox stores 1 and
  clearing it stores 2, and the stored integers are what the request carries.
\<close>

theorem objective_status_transmitted:
  assumes "list_all offered_by_form evs" and "campaign st = initial_campaign"
      and "(url, body) \<in> set (snd (handleLaunch post (fill_form evs st)))"
  shows "objectives = [(1, ''Awareness''), (2, ''Traffic''), (3, ''App Install''),
                       (4, ''Lead Generation'')]
       \<and> campaign_field body ''objective''
           \<in> {Some (JNum 1), Some (JNum 2), Some (JNum 3), Some (JNum 4)}
       \<and> campaign_field body ''status'' \<in> {Some (JNum 1), Some (JNum 2)}
       \<and> campaign_field body ''objective''
           = Some (json_number (objective (campaign (fill_form evs st))))
       \<and> campaign_field body ''status''
           = Some (json_number (status (campaign (fill_form evs st))))
       \<and> (\<forall>v l. (v, l) \<in> set objectives \<longrightarrow>
             objective (apply_form_event c (ObjectiveSelect (nat_to_string v))) = Num (of_nat v))
       \<and> (\<forall>checked. status (apply_form_event c (StatusCheck checked))
             = (if checked then Num 1 else Num 2))"
proof -
  have "objective (campaign st) \<in> {Num 1, Num 2, Num 3, Num 4}
      \<and> status (campaign st) \<in> {Num 1, Num 2}"
    using assms(2) by (simp add: initial_campaign_def)
  with assms(1)
  have "objective (foldl apply_form_event (campaign st) evs) \<in> {Num 1, Num 2, Num 3, Num 4}
      \<and> status (foldl apply_form_event (campaign st) evs) \<in> {Num 1, Num 2}"
    by (rule enumerated_foldl)
  then have en: "objective (campaign (fill_form evs st)) \<in> {Num 1, Num 2, Num 3, Num 4}
      \<and> status (campaign (fill_form evs st)) \<in> {Num 1, Num 2}"
    by (simp add: fill_form_def)
  from assms(3) have body: "body = launch_payload (fill_form evs st)"
    by (simp add: requests_of_handleLaunch split: if_splits)
  have obj: "campaign_field body ''objective''
      = Some (json_number (objective (campaign (fill_form evs st))))"
    unfolding body by (rule campaign_field_objective)
  have sta: "campaign_field body ''status''
      = Some (json_number (status (campaign (fill_form evs st))))"
    unfolding body by (rule campaign_field_status)
  have o: "campaign_field body ''objective''
      \<in> {Some (JNum 1), Some (JNum 2), Some (JNum 3), Some (JNum 4)}"
    using en unfolding obj by auto
  have s: "campaign_field body ''status'' \<in> {Some (JNum 1), Some (JNum 2)}"
    using en unfolding sta by auto
  have sel: "\<forall>v l. (v, l) \<in> set objectives \<longrightarrow>
      objective (apply_form_event c (ObjectiveSelect (nat_to_string v))) = Num (of_nat v)"
    by (simp add: parseInt_nat_to_string_objectives)
  have chk: "\<forall>checked. status (apply_form_event c (StatusCheck checked))
      = (if checked then Num 1 else Num 2)"
    by simp
  from o s obj sta sel chk show ?thesis by (simp add: objectives_def)
qed

theorem objective_status_transmitted_witness:
  "list_all offered_by_form [NameInput (js ''Sale''), ObjectiveSelect (js ''4''), StatusCheck False]
   \<and> campaign (toggleAccount 1 page0) = initial_campaign
   \<and> snd (handleLaunch (\<lambda>url body. Inl [])
        (fill_form [NameInput (js ''Sale''), ObjectiveSelect (js ''4''), StatusCheck False]
           (toggleAccount 1 page0)))
       = [(''/api/bulk-launch'',
           JObj [(''account_ids'', JArr [JNum 1]),
                 (''campaign'', JObj [(''name'', JStr (js ''Sale'')), (''objective'', JNum 4),
                                      (''daily_budget'', JNull), (''status'', JNum 2)])])]
   \<and> campaign_field
        (JObj [(''account_ids'', JArr [JNum 1]),
               (''campaign'', JObj [(''name'', JStr (js ''Sale'')), (''objective'', JNum 4),
                                    (''daily_budget'', JNull), (''status'', JNum 2)])])
        ''objective'' = Some (JNum 4)
   \<and> campaign_field
        (JObj [(''account_ids'', JArr [JNum 1]),
               (''campaign'', JObj [(''name'', JStr (js ''Sale'')), (''objective'', JNum 4),
                                    (''daily_budget'', JNull), (''status'', JNum 2)])])
        ''status'' = Some (JNum 2)"
  using objective_status_transmitted
    [of "[NameInput (js ''Sale''), ObjectiveSelect (js ''4''), StatusCheck False]"
        "toggleAccount 1 page0" "''/api/bulk-launch''"
        "JObj [(''account_ids'', JArr [JNum 1]),
               (''campaign'', JObj [(''name'', JStr (js ''Sale'')), (''objective'', JNum 4),
                                    (''daily_budget'', JNull), (''status'', JNum 2)])]"
        "\<lambda>url body. Inl []" initial_campaign]
  by (simp add: requests_of_handleLaunch page0_selected page0_campaign page0_campaign_initial
      option_values_eval trim_Sale js_nonempty parseInt_4 launch_payload_def budget_value_def
      campaign_field_def)
     (simp add: initial_campaign_def)

subsection \<open>Daily budget\<close>

lemma campaign_field_daily_budget:
  "campaign_field (launch_payload st) ''daily_budget'' =
     Some (if daily_budget (campaign st) = [] then JNull
           else json_number (parseFloat (daily_budget (campaign st))))"
  by (simp add: campaign_field_def launch_payload_def budget_value_def)

text \<open>
  A budget text beyond the range of a double is sent as \<open>null\<close>, and one between two
  doubles is sent as the nearest double.
\<close>

lemma budget_1e400_sent_as_null:
  "campaign_field
     (launch_payload (fill_form [NameInput (js ''Sale''), BudgetInput (js ''1e400'')]
                        (toggleAccount 1 page0)))
     ''daily_budget'' = Some JNull"
  by (simp add: campaign_field_daily_budget page0_campaign initial_campaign_def
      parseFloat_1e400 js_nonempty)

lemma budget_2_53_plus_1_sent_rounded:
  "campaign_field
     (launch_payload (fill_form [NameInput (js ''Sale''), BudgetInput (js ''9007199254740993'')]
                        (toggleAccount 1 page0)))
     ''daily_budget'' = Some (JNum 9007199254740992)"
  by (simp add: campaign_field_daily_budget page0_campaign initial_campaign_def
      parseFloat_2_53_plus_1 js_nonempty)

text \<open>
  C6, as amended. On every request that \<open>handleLaunch\<close> submits, \<open>daily_budget\<close> is
  \<open>null\<close> when the budget field is the empty string, and otherwise it is the double
  that \<open>parseFloat\<close> reads from the text of the field, as \<open>JSON.stringify\<close> writes it
  (\<open>null\<close> when it is not finite). The sign of that number is not checked.
\<close>

theorem daily_budget_transmitted:
  assumes "(url, body) \<in> set (snd (handleLaunch post st))"
  shows "campaign_field body ''daily_budget'' =
           Some (if daily_budget (campaign st) = [] then JNull
                 else json_number (parseFloat (daily_budget (campaign st))))"
proof -
  from assms have "body = launch_payload st"
    by (simp add: requests_of_handleLaunch split: if_splits)
  then show ?thesis by (simp add: campaign_field_daily_budget)
qed

theorem daily_budget_transmitted_witness:
  "(''/api/bulk-launch'',
      launch_payload (fill_form [NameInput (js ''Sale''), BudgetInput (js ''12.5'')]
                        (toggleAccount 1 page0)))
     \<in> set (snd (handleLaunch (\<lambda>url body. Inl [])
               (fill_form [NameInput (js ''Sale''), BudgetInput (js ''12.5'')]
                  (toggleAccount 1 page0))))
   \<and> campaign_field
        (launch_payload (fill_form [NameInput (js ''Sale''), BudgetInput (js ''12.5'')]
                           (toggleAccount 1 page0)))
        ''daily_budget'' = Some (JNum (25 / 2))"
  using daily_budget_transmitted
    [of "''/api/bulk-launch''"
        "launch_payload (fill_form [NameInput (js ''Sale''), BudgetInput (js ''12.5'')]
                           (toggleAccount 1 page0))"
        "\<lambda>url body. Inl []"
        "fill_form [NameInput (js ''Sale''), BudgetInput (js ''12.5'')] (toggleAccount 1 page0)"]
  by (simp add: requests_of_handleLaunch page0_selected page0_campaign initial_campaign_def
      trim_Sale js_nonempty parseFloat_12_5)

text \<open>
  C6 as stated fails: with the name \<open>Sale\<close> and the text \<open>-5\<close> in the budget field,
  the request carries the daily budget \<open>-5\<close>, which is neither absent nor positive.
\<close>

theorem negative_budget_counterexample:
  "snd (handleLaunch (\<lambda>url body. Inl [])
         (fill_form [NameInput (js ''Sale''), BudgetInput (js ''-5'')] (toggleAccount 1 page0)))
     = [(''/api/bulk-launch'',
         JObj [(''account_ids'', JArr [JNum 1]),
               (''campaign'', JObj [(''name'', JStr (js ''Sale'')), (''objective'', JNum 2),
                                    (''daily_budget'', JNum (- 5)), (''status'', JNum 1)])])]
   \<and> \<not> absent_or_positive (campaign_field
         (JObj [(''account_ids'', JArr [JNum 1]),
                (''campaign'', JObj [(''name'', JStr (js ''Sale'')), (''objective'', JNum 2),
                                     (''daily_budget'', JNum (- 5)), (''status'', JNum 1)])])
         ''daily_budget'')"
  by (simp add: requests_of_handleLaunch page0_selected page0_campaign initial_campaign_def
      trim_Sale launch_payload_def budget_value_def parseFloat_minus_5 campaign_field_def
      js_nonempty)

section \<open>Properties of the results view\<close>

lemma values_shown_succeeded_row:
  "values_shown (succeeded_row r) = [get_prop r ''account_name'', get_prop r ''campaign_id'']"
  by (simp add: succeeded_row_def)

lemma leaves_succeeded_row:
  "leaves (succeeded_row r) =
     [Shown_value (get_prop r ''account_name''),
      Shown_text ([0x20, 0x2022, 0x20] @ js ''Campaign ID: ''),
      Shown_value (get_prop r ''campaign_id'')]"
  by (simp add: succeeded_row_def)

lemma leaves_succeeded_rows:
  "concat (map leaves (map succeeded_row rs)) =
     concat (map (\<lambda>r. [Shown_value (get_prop r ''account_name''),
                        Shown_text ([0x20, 0x2022, 0x20] @ js ''Campaign ID: ''),
                        Shown_value (get_prop r ''campaign_id'')]) rs)"
  by (induction rs) (simp_all add: leaves_succeeded_row)





section \<open>Properties of the accounts search\<close>

text \<open>
  C10. An account whose \<open>name\<close> and \<open>organization_name\<close> are both \<open>null\<close> or
  \<open>undefined\<close> is not in the filtered list, whatever the filter, the empty string
  included; under the empty filter every account of the list with a defined name is in
  the filtered list. The case mapping is any function that maps the empty string to
  itself.
\<close>

theorem filteredAccounts_null_names:
  assumes "lower [] = []"
  shows "(acc_name acc = None \<and> organization_name acc = None \<longrightarrow>
            acc \<notin> set (filteredAccounts lower flt accs)
            \<and> acc \<notin> set (filteredAccounts lower [] accs))
       \<and> (acc \<in> set accs \<and> acc_name acc \<noteq> None \<longrightarrow>
            acc \<in> set (filteredAccounts lower [] accs))"
  using assms
  by (auto simp add: filteredAccounts_def field_matches_def js_or_def js_includes_empty)

theorem filteredAccounts_null_names_witness:
  "ascii_lower [] = []
   \<and> filteredAccounts ascii_lower []
        [\<lparr>acc_id = 1, acc_name = None, organization_name = None\<rparr>,
         \<lparr>acc_id = 2, acc_name = Some (js ''Acme''), organization_name = None\<rparr>,
         \<lparr>acc_id = 3, acc_name = Some [], organization_name = None\<rparr>]
      = [\<lparr>acc_id = 2, acc_name = Some (js ''Acme''), organization_name = None\<rparr>,
         \<lparr>acc_id = 3, acc_name = Some [], organization_name = None\<rparr>]"
  using filteredAccounts_null_names
    [of ascii_lower "\<lparr>acc_id = 1, acc_name = None, organization_name = None\<rparr>" "[]"
        "[\<lparr>acc_id = 1, acc_name = None, organization_name = None\<rparr>,
          \<lparr>acc_id = 2, acc_name = Some (js ''Acme''), organization_name = None\<rparr>,
          \<lparr>acc_id = 3, acc_name = Some [], organization_name = None\<rparr>]"]
  by (simp add: filteredAccounts_def field_matches_def js_or_def js_includes_empty
      ascii_lower_def)

section \<open>Properties of the dispatch engine\<close>

subsection \<open>The aggregator is a stable partition\<close>

lemma succeeded_ids_aggregate:
  "map s_account_id (report_succeeded (aggregate reg outs ids)) =
     filter (\<lambda>a. \<exists>rid. outcome_of outs a = Success rid) ids"
  by (induction ids) (auto simp add: Let_def split: account_outcome.splits)

lemma failed_ids_aggregate:
  "map f_account_id (report_failed (aggregate reg outs ids)) =
     filter (\<lambda>a. \<not> (\<exists>rid. outcome_of outs a = Success rid)) ids"
  by (induction ids) (auto simp add: Let_def split: account_outcome.splits)

lemma bulk_launch_report:
  assumes "valid_request req"
  shows "\<exists>outs. bulk_launch env req completed
           = Inr (aggregate (registry env) outs (req_account_ids req))"
  using assms by (auto simp add: bulk_launch_def)

text \<open>The position of an element that a filter keeps, and the order of two of them.\<close>

lemma filter_nth_rank:
  assumes "i < length xs" and "P (xs ! i)"
  shows "length (filter P (take i xs)) < length (filter P xs)
         \<and> filter P xs ! length (filter P (take i xs)) = xs ! i"
proof -
  have xs: "xs = take i xs @ xs ! i # drop (Suc i) xs"
    using assms(1) by (simp add: id_take_nth_drop)
  have "filter P xs = filter P (take i xs) @ xs ! i # filter P (drop (Suc i) xs)"
    using assms(2) by (subst xs) simp
  then show ?thesis by (simp add: nth_append)
qed

lemma filter_rank_mono:
  assumes "i < j" and "j \<le> length xs" and "P (xs ! i)"
  shows "length (filter P (take i xs)) < length (filter P (take j xs))"
proof -
  have "i < length (take j xs)" using assms by simp
  moreover have "P (take j xs ! i)" using assms by simp
  ultimately have "length (filter P (take i (take j xs))) < length (filter P (take j xs))"
    using filter_nth_rank [of i "take j xs" P] by blast
  moreover have "take i (take j xs) = take i xs" using assms(1) by (simp add: min_def)
  ultimately show ?thesis by simp
qed

lemma filter_order:
  assumes "i < j" and "j < length xs" and "P (xs ! i)" and "P (xs ! j)"
  shows "\<exists>p q. p < q \<and> q < length (filter P xs)
               \<and> filter P xs ! p = xs ! i \<and> filter P xs ! q = xs ! j"
proof -
  let ?p = "length (filter P (take i xs))" and ?q = "length (filter P (take j xs))"
  have "?p < ?q" using assms by (intro filter_rank_mono) simp_all
  moreover have "?q < length (filter P xs) \<and> filter P xs ! ?q = xs ! j"
    using assms by (intro filter_nth_rank) simp_all
  moreover have "filter P xs ! ?p = xs ! i"
    using assms filter_nth_rank [of i xs P] by simp
  ultimately show ?thesis by blast
qed

lemmas engine_simps = scenario_engine_def rejecting_engine_def throttling_engine_def
  run_account_def resolve_credential_def eval_nat_numeral

lemma scenario_valid: "valid_request scenario_request"
  by (simp add: valid_request_def scenario_request_def)

lemma scenario_report:
  "bulk_launch scenario_engine scenario_request [3, 1, 2] =
     Inr \<lparr>report_succeeded =
            [\<lparr>s_account_id = 1, s_account_name = ''Acme'', remote_campaign_id = ''cmp''\<rparr>,
             \<lparr>s_account_id = 3, s_account_name = ''Acme'', remote_campaign_id = ''cmp''\<rparr>],
          report_failed =
            [\<lparr>f_account_id = 2, f_account_name = Some ''Acme'',
              f_error_kind = CredentialInactive, f_message = ''credential lookup failed''\<rparr>]\<rparr>"
  by (simp add: bulk_launch_def scenario_valid)
     (simp add: scenario_request_def engine_simps outcome_of_def Let_def)

lemma scenario_report_timeout:
  "bulk_launch scenario_engine scenario_request [2, 1] =
     Inr \<lparr>report_succeeded =
            [\<lparr>s_account_id = 1, s_account_name = ''Acme'', remote_campaign_id = ''cmp''\<rparr>],
          report_failed =
            [\<lparr>f_account_id = 2, f_account_name = Some ''Acme'',
              f_error_kind = CredentialInactive, f_message = ''credential lookup failed''\<rparr>,
             \<lparr>f_account_id = 3, f_account_name = Some ''Acme'',
              f_error_kind = Timeout, f_message = ''batch ceiling reached''\<rparr>]\<rparr>"
  by (simp add: bulk_launch_def scenario_valid)
     (simp add: scenario_request_def engine_simps outcome_of_def Let_def)

text \<open>
  Scenario B of section 8: a request with no account is rejected and nothing is
  dispatched.
\<close>

lemma scenario_B:
  "bulk_launch env (req\<lparr>req_account_ids := []\<rparr>) completed = Inl ValidationRejected"
  by (simp add: bulk_launch_def valid_request_def)

text \<open>
  C1. For every valid launch request, whatever the order in which the account tasks
  complete and whichever of them reach the ceiling, the bulk launch returns a report in
  which \<open>succeeded\<close> and \<open>failed\<close> together have as many entries as the request has
  accounts, every requested account id is in exactly one of the two lists, no other id
  is in either, and with pairwise distinct requested ids no id occurs twice.
\<close>

theorem report_partitions_request:
  assumes "valid_request req"
  shows "\<exists>rep. bulk_launch env req completed = Inr rep
       \<and> length (report_succeeded rep) + length (report_failed rep)
           = length (req_account_ids req)
       \<and> (\<forall>a. a \<in> set (req_account_ids req) \<longrightarrow>
             (a \<in> set (map s_account_id (report_succeeded rep)))
               \<noteq> (a \<in> set (map f_account_id (report_failed rep))))
       \<and> set (map s_account_id (report_succeeded rep))
           \<union> set (map f_account_id (report_failed rep)) = set (req_account_ids req)
       \<and> (distinct (req_account_ids req) \<longrightarrow>
             distinct (map s_account_id (report_succeeded rep)
                       @ map f_account_id (report_failed rep)))"
proof -
  from bulk_launch_report [OF assms] obtain outs
    where run: "bulk_launch env req completed
                  = Inr (aggregate (registry env) outs (req_account_ids req))"
    by blast
  let ?ids = "req_account_ids req"
  let ?rep = "aggregate (registry env) outs ?ids"
  let ?P = "\<lambda>a. \<exists>rid. outcome_of outs a = Success rid"
  have s: "map s_account_id (report_succeeded ?rep) = filter ?P ?ids"
    by (rule succeeded_ids_aggregate)
  have f: "map f_account_id (report_failed ?rep) = filter (\<lambda>a. \<not> ?P a) ?ids"
    by (rule failed_ids_aggregate)
  have "length (map s_account_id (report_succeeded ?rep))
          + length (map f_account_id (report_failed ?rep)) = length ?ids"
    unfolding s f by (rule sum_length_filter_compl)
  then have len: "length (report_succeeded ?rep) + length (report_failed ?rep) = length ?ids"
    by simp
  have one: "\<forall>a. a \<in> set ?ids \<longrightarrow>
      (a \<in> set (map s_account_id (report_succeeded ?rep)))
        \<noteq> (a \<in> set (map f_account_id (report_failed ?rep)))"
    unfolding s f by auto
  have cover: "set (map s_account_id (report_succeeded ?rep))
      \<union> set (map f_account_id (report_failed ?rep)) = set ?ids"
    unfolding s f by auto
  have once: "distinct ?ids \<longrightarrow>
      distinct (map s_account_id (report_succeeded ?rep)
                @ map f_account_id (report_failed ?rep))"
    unfolding s f by auto
  from run len one cover once show ?thesis by blast
qed

theorem report_partitions_request_witness:
  "valid_request scenario_request
   \<and> bulk_launch scenario_engine scenario_request [2, 1] =
       Inr \<lparr>report_succeeded =
              [\<lparr>s_account_id = 1, s_account_name = ''Acme'', remote_campaign_id = ''cmp''\<rparr>],
            report_failed =
              [\<lparr>f_account_id = 2, f_account_name = Some ''Acme'',
                f_error_kind = CredentialInactive, f_message = ''credential lookup failed''\<rparr>,
               \<lparr>f_account_id = 3, f_account_name = Some ''Acme'',
                f_error_kind = Timeout, f_message = ''batch ceiling reached''\<rparr>]\<rparr>
   \<and> req_account_ids scenario_request = [1, 2, 3]"
  using report_partitions_request [of scenario_request scenario_engine "[2, 1]"]
  by (simp add: scenario_valid scenario_report_timeout) (simp add: scenario_request_def)

text \<open>
  C2. For every valid launch request and all positions \<open>i < j\<close> of its account list: if
  the accounts at \<open>i\<close> and \<open>j\<close> are both in \<open>succeeded\<close>, an entry of the account at
  \<open>i\<close> stands before an entry of the account at \<open>j\<close> in \<open>succeeded\<close>, and likewise in
  \<open>failed\<close>. Each list of the report holds its accounts in the order of the request:
  its ids are the request list restricted to the ids it holds.
\<close>

theorem report_preserves_request_order:
  assumes "valid_request req" and "i < j" and "j < length (req_account_ids req)"
  shows "\<exists>rep. bulk_launch env req completed = Inr rep
       \<and> (req_account_ids req ! i \<in> set (map s_account_id (report_succeeded rep))
          \<and> req_account_ids req ! j \<in> set (map s_account_id (report_succeeded rep)) \<longrightarrow>
            (\<exists>p q. p < q \<and> q < length (report_succeeded rep)
                 \<and> s_account_id (report_succeeded rep ! p) = req_account_ids req ! i
                 \<and> s_account_id (report_succeeded rep ! q) = req_account_ids req ! j))
       \<and> (req_account_ids req ! i \<in> set (map f_account_id (report_failed rep))
          \<and> req_account_ids req ! j \<in> set (map f_account_id (report_failed rep)) \<longrightarrow>
            (\<exists>p q. p < q \<and> q < length (report_failed rep)
                 \<and> f_account_id (report_failed rep ! p) = req_account_ids req ! i
                 \<and> f_account_id (report_failed rep ! q) = req_account_ids req ! j))
       \<and> map s_account_id (report_succeeded rep)
           = filter (\<lambda>a. a \<in> set (map s_account_id (report_succeeded rep)))
                    (req_account_ids req)
       \<and> map f_account_id (report_failed rep)
           = filter (\<lambda>a. a \<in> set (map f_account_id (report_failed rep)))
                    (req_account_ids req)"
proof -
  from bulk_launch_report [OF assms(1)] obtain outs
    where run: "bulk_launch env req completed
                  = Inr (aggregate (registry env) outs (req_account_ids req))"
    by blast
  let ?ids = "req_account_ids req"
  let ?rep = "aggregate (registry env) outs ?ids"
  let ?P = "\<lambda>a. \<exists>rid. outcome_of outs a = Success rid"
  let ?S = "map s_account_id (report_succeeded ?rep)"
  let ?F = "map f_account_id (report_failed ?rep)"
  have s: "?S = filter ?P ?ids"
    by (rule succeeded_ids_aggregate)
  have f: "?F = filter (\<lambda>a. \<not> ?P a) ?ids"
    by (rule failed_ids_aggregate)
  have in_s: "\<exists>p q. p < q \<and> q < length (report_succeeded ?rep)
            \<and> s_account_id (report_succeeded ?rep ! p) = ?ids ! i
            \<and> s_account_id (report_succeeded ?rep ! q) = ?ids ! j"
    if "?ids ! i \<in> set ?S" and "?ids ! j \<in> set ?S"
  proof -
    from that have "?P (?ids ! i)" and "?P (?ids ! j)" unfolding s by simp_all
    from filter_order [OF assms(2,3), of ?P, OF this]
    obtain p q where "p < q" "q < length ?S" "?S ! p = ?ids ! i" "?S ! q = ?ids ! j"
      unfolding s [symmetric] by blast
    then show ?thesis by auto
  qed
  have in_f: "\<exists>p q. p < q \<and> q < length (report_failed ?rep)
            \<and> f_account_id (report_failed ?rep ! p) = ?ids ! i
            \<and> f_account_id (report_failed ?rep ! q) = ?ids ! j"
    if "?ids ! i \<in> set ?F" and "?ids ! j \<in> set ?F"
  proof -
    from that have "\<not> ?P (?ids ! i)" and "\<not> ?P (?ids ! j)" unfolding f by simp_all
    from filter_order [OF assms(2,3), of "\<lambda>a. \<not> ?P a", OF this]
    obtain p q where "p < q" "q < length ?F" "?F ! p = ?ids ! i" "?F ! q = ?ids ! j"
      unfolding f [symmetric] by blast
    then show ?thesis by auto
  qed
  have "filter (\<lambda>a. a \<in> set (filter ?P ?ids)) ?ids = filter ?P ?ids"
    by (rule filter_cong) auto
  then have sub_s: "?S = filter (\<lambda>a. a \<in> set ?S) ?ids"
    unfolding s by simp
  have "filter (\<lambda>a. a \<in> set (filter (\<lambda>a. \<not> ?P a) ?ids)) ?ids = filter (\<lambda>a. \<not> ?P a) ?ids"
    by (rule filter_cong) auto
  then have sub_f: "?F = filter (\<lambda>a. a \<in> set ?F) ?ids"
    unfolding f by simp
  from run in_s in_f sub_s sub_f show ?thesis by blast
qed

theorem report_preserves_request_order_witness:
  "valid_request scenario_request
   \<and> (0 :: nat) < 2 \<and> 2 < length (req_account_ids scenario_request)
   \<and> req_account_ids scenario_request = [1, 2, 3]
   \<and> bulk_launch scenario_engine scenario_request [3, 1, 2] =
       Inr \<lparr>report_succeeded =
              [\<lparr>s_account_id = 1, s_account_name = ''Acme'', remote_campaign_id = ''cmp''\<rparr>,
               \<lparr>s_account_id = 3, s_account_name = ''Acme'', remote_campaign_id = ''cmp''\<rparr>],
            report_failed =
              [\<lparr>f_account_id = 2, f_account_name = Some ''Acme'',
                f_error_kind = CredentialInactive, f_message = ''credential lookup failed''\<rparr>]\<rparr>"
  using report_preserves_request_order [of scenario_request 0 2 scenario_engine "[3, 1, 2]"]
  by (simp add: scenario_valid scenario_report) (simp add: scenario_request_def)

subsection \<open>Retries of the adapter\<close>

lemma adapter_first_not_transient:
  "call k = Rejected e m \<Longrightarrow> \<not> transient e \<Longrightarrow> adapter call retries k = (Failure e m, Suc k)"
  by (cases retries) simp_all

lemma adapter_failure_last:
  "adapter call retries k = (Failure e m, n) \<Longrightarrow>
     k < n \<and> call (n - 1) = Rejected e m
     \<and> (\<forall>i. k \<le> i \<and> i < n - 1 \<longrightarrow> (\<exists>e' m'. call i = Rejected e' m' \<and> transient e'))"
proof (induction retries arbitrary: k)
  case 0
  then show ?case by (auto split: api_response.splits)
next
  case (Suc r)
  show ?case
  proof (cases "call k")
    case (Created rid)
    with Suc.prems show ?thesis by simp
  next
    case (Rejected e' m')
    show ?thesis
    proof (cases "transient e'")
      case True
      with Rejected Suc.prems have rec: "adapter call r (Suc k) = (Failure e m, n)" by simp
      from Suc.IH [OF rec] have lt: "Suc k < n" and last: "call (n - 1) = Rejected e m"
        and before: "\<forall>i. Suc k \<le> i \<and> i < n - 1 \<longrightarrow>
                       (\<exists>e' m'. call i = Rejected e' m' \<and> transient e')"
        by blast+
      have "\<exists>e' m'. call i = Rejected e' m' \<and> transient e'" if "k \<le> i" "i < n - 1" for i
      proof (cases "i = k")
        case True
        with Rejected \<open>transient e'\<close> show ?thesis by simp
      next
        case False
        with that before show ?thesis by simp
      qed
      with last lt show ?thesis by auto
    next
      case False
      with Rejected Suc.prems show ?thesis by auto
    qed
  qed
qed

lemma adapter_stops_at_non_transient:
  assumes "adapter call retries k = (oc, n)" and "k \<le> i" and "i < n"
      and "call i = Rejected e m" and "\<not> transient e"
  shows "n = Suc i \<and> oc = Failure e m"
  using assms
proof (induction retries arbitrary: k)
  case 0
  then have "n = Suc k" by (auto split: api_response.splits)
  with 0 have "i = k" by simp
  with 0 show ?case by simp
next
  case (Suc r)
  show ?case
  proof (cases "call k")
    case (Created rid)
    with Suc.prems have "n = Suc k" by simp
    with Suc.prems have "i = k" by simp
    with Created Suc.prems show ?thesis by simp
  next
    case (Rejected e' m')
    show ?thesis
    proof (cases "transient e'")
      case True
      with Rejected Suc.prems have rec: "adapter call r (Suc k) = (oc, n)" by simp
      from True Rejected Suc.prems have "i \<noteq> k" by auto
      with Suc.prems have "Suc k \<le> i" by simp
      from Suc.IH [OF rec this Suc.prems(3,4,5)] show ?thesis .
    next
      case False
      with Rejected Suc.prems have "n = Suc k" by simp
      with Suc.prems have "i = k" by simp
      with False Rejected Suc.prems show ?thesis by simp
    qed
  qed
qed

text \<open>
  Scenario C of section 8: a rate limit on the first two calls and a success on the
  third give a success after exactly three calls.
\<close>

lemma scenario_C:
  "adapter (\<lambda>k. if k < 2 then Rejected RateLimited ''slow down'' else Created ''cmp'') 2 0
     = (Success ''cmp'', 3)"
  by (simp add: eval_nat_numeral)

lemma example_resolutions:
  "resolve_credential (registry scenario_engine) (credential_store scenario_engine) 2
     = Inl CredentialInactive"
  "resolve_credential (registry rejecting_engine) (credential_store rejecting_engine) 1
     = Inr (\<lparr>remote_account_id = ''nb'', display_name = ''Acme'', credential_ref = 1\<rparr>, ''token'')"
  "resolve_credential (registry throttling_engine) (credential_store throttling_engine) 1
     = Inr (\<lparr>remote_account_id = ''nb'', display_name = ''Acme'', credential_ref = 1\<rparr>, ''token'')"
  "external_api rejecting_engine ''nb'' ''token'' 0 = Rejected ValidationRejected ''bad payload''"
  "external_api throttling_engine ''nb'' ''token'' 1 = Rejected ValidationRejected ''bad payload''"
  "external_api throttling_engine ''nb'' ''token'' (Suc 0)
     = Rejected ValidationRejected ''bad payload''"
  by (simp_all add: scenario_engine_def rejecting_engine_def throttling_engine_def
      resolve_credential_def)

lemma example_runs:
  "run_account scenario_engine 2 = (Failure CredentialInactive ''credential lookup failed'', 0)"
  "run_account rejecting_engine 1 = (Failure ValidationRejected ''bad payload'', 1)"
  "run_account throttling_engine 1 = (Failure ValidationRejected ''bad payload'', 2)"
  by (simp_all add: engine_simps)

text \<open>
  C7, as amended. An answer of kind \<open>ValidationRejected\<close> or \<open>CredentialInactive\<close> is
  never retried: when any external call of an account is answered with one of these
  kinds, that call is the last one and the account fails with that answer. So when the
  first call is answered with one of these kinds, the account fails with it after
  exactly one call; when the resolver fails, no external call is made; and whenever an
  account fails with one of these kinds, the answer that carried it was the last call
  and every call before it was answered with a transient failure.
\<close>

theorem non_transient_failure_not_retried:
  "(resolve_credential (registry env) (credential_store env) a = Inl e \<longrightarrow>
      run_account env a = (Failure e ''credential lookup failed'', 0))
   \<and> (resolve_credential (registry env) (credential_store env) a = Inr (entry, cred)
        \<and> external_api env (remote_account_id entry) cred 0 = Rejected e m
        \<and> (e = ValidationRejected \<or> e = CredentialInactive) \<longrightarrow>
          run_account env a = (Failure e m, 1))
   \<and> (resolve_credential (registry env) (credential_store env) a = Inr (entry, cred)
        \<and> run_account env a = (oc, n) \<and> i < n
        \<and> external_api env (remote_account_id entry) cred i = Rejected e m
        \<and> (e = ValidationRejected \<or> e = CredentialInactive) \<longrightarrow>
          n = Suc i \<and> oc = Failure e m)
   \<and> (resolve_credential (registry env) (credential_store env) a = Inr (entry, cred)
        \<and> run_account env a = (Failure e m, n)
        \<and> (e = ValidationRejected \<or> e = CredentialInactive) \<longrightarrow>
          0 < n \<and> external_api env (remote_account_id entry) cred (n - 1) = Rejected e m
          \<and> (\<forall>i. i < n - 1 \<longrightarrow>
                (\<exists>e' m'. external_api env (remote_account_id entry) cred i = Rejected e' m'
                          \<and> transient e')))"
proof -
  let ?call = "external_api env (remote_account_id entry) cred"
  have a: "resolve_credential (registry env) (credential_store env) a = Inl e \<longrightarrow>
      run_account env a = (Failure e ''credential lookup failed'', 0)"
    by (simp add: run_account_def)
  have b: "resolve_credential (registry env) (credential_store env) a = Inr (entry, cred)
        \<and> ?call 0 = Rejected e m \<and> (e = ValidationRejected \<or> e = CredentialInactive) \<longrightarrow>
          run_account env a = (Failure e m, 1)"
    by (auto simp add: run_account_def adapter_first_not_transient)
  have c: "resolve_credential (registry env) (credential_store env) a = Inr (entry, cred)
        \<and> run_account env a = (oc, n) \<and> i < n \<and> ?call i = Rejected e m
        \<and> (e = ValidationRejected \<or> e = CredentialInactive) \<longrightarrow>
          n = Suc i \<and> oc = Failure e m"
  proof (intro impI, elim conjE)
    assume r: "resolve_credential (registry env) (credential_store env) a = Inr (entry, cred)"
      and o: "run_account env a = (oc, n)" and i: "i < n"
      and ans: "?call i = Rejected e m"
      and kind: "e = ValidationRejected \<or> e = CredentialInactive"
    from r o have run: "adapter ?call (max_attempts env - 1) 0 = (oc, n)"
      by (simp add: run_account_def)
    from kind have nt: "\<not> transient e" by auto
    have "0 \<le> i" by simp
    from adapter_stops_at_non_transient [OF run this i ans nt]
    show "n = Suc i \<and> oc = Failure e m" .
  qed
  have d: "resolve_credential (registry env) (credential_store env) a = Inr (entry, cred)
        \<and> run_account env a = (Failure e m, n)
        \<and> (e = ValidationRejected \<or> e = CredentialInactive) \<longrightarrow>
          0 < n \<and> ?call (n - 1) = Rejected e m
          \<and> (\<forall>i. i < n - 1 \<longrightarrow> (\<exists>e' m'. ?call i = Rejected e' m' \<and> transient e'))"
  proof (intro impI, elim conjE)
    assume r: "resolve_credential (registry env) (credential_store env) a = Inr (entry, cred)"
      and o: "run_account env a = (Failure e m, n)"
    from r o have "adapter ?call (max_attempts env - 1) 0 = (Failure e m, n)"
      by (simp add: run_account_def)
    from adapter_failure_last [OF this]
    show "0 < n \<and> ?call (n - 1) = Rejected e m
          \<and> (\<forall>i. i < n - 1 \<longrightarrow> (\<exists>e' m'. ?call i = Rejected e' m' \<and> transient e'))"
      by simp
  qed
  from a b c d show ?thesis by (intro conjI)
qed

theorem non_transient_failure_not_retried_witness:
  "resolve_credential (registry scenario_engine) (credential_store scenario_engine) 2
     = Inl CredentialInactive
   \<and> run_account scenario_engine 2 = (Failure CredentialInactive ''credential lookup failed'', 0)
   \<and> resolve_credential (registry rejecting_engine) (credential_store rejecting_engine) 1
       = Inr (\<lparr>remote_account_id = ''nb'', display_name = ''Acme'', credential_ref = 1\<rparr>, ''token'')
   \<and> external_api rejecting_engine ''nb'' ''token'' 0 = Rejected ValidationRejected ''bad payload''
   \<and> run_account rejecting_engine 1 = (Failure ValidationRejected ''bad payload'', 1)
   \<and> resolve_credential (registry throttling_engine) (credential_store throttling_engine) 1
       = Inr (\<lparr>remote_account_id = ''nb'', display_name = ''Acme'', credential_ref = 1\<rparr>, ''token'')
   \<and> external_api throttling_engine ''nb'' ''token'' 1 = Rejected ValidationRejected ''bad payload''
   \<and> run_account throttling_engine 1 = (Failure ValidationRejected ''bad payload'', 2)
   \<and> (2 :: nat) = Suc 1"
proof -
  let ?entry = "\<lparr>remote_account_id = ''nb'', display_name = ''Acme'', credential_ref = 1\<rparr>"
  have first: "run_account scenario_engine 2
      = (Failure CredentialInactive ''credential lookup failed'', 0)"
    using non_transient_failure_not_retried
        [where env = scenario_engine and a = 2 and e = CredentialInactive
           and entry = ?entry and cred = "''token''" and m = "''none''" and i = 0
           and oc = "Failure CredentialInactive ''none''" and n = 0,
         THEN conjunct1]
      example_resolutions(1)
    by (rule mp)
  have "resolve_credential (registry rejecting_engine) (credential_store rejecting_engine) 1
          = Inr (?entry, ''token'')
        \<and> external_api rejecting_engine (remote_account_id ?entry) ''token'' 0
            = Rejected ValidationRejected ''bad payload''
        \<and> (ValidationRejected = ValidationRejected \<or> ValidationRejected = CredentialInactive)"
    by (simp add: example_resolutions)
  with non_transient_failure_not_retried
        [where env = rejecting_engine and a = 1 and e = ValidationRejected
           and entry = ?entry and cred = "''token''" and m = "''bad payload''" and i = 0
           and oc = "Failure ValidationRejected ''bad payload''" and n = 1,
         THEN conjunct2, THEN conjunct1]
  have second: "run_account rejecting_engine 1 = (Failure ValidationRejected ''bad payload'', 1)"
    by (rule mp)
  have "resolve_credential (registry throttling_engine) (credential_store throttling_engine) 1
          = Inr (?entry, ''token'')
        \<and> run_account throttling_engine 1 = (Failure ValidationRejected ''bad payload'', 2)
        \<and> (1 :: nat) < 2
        \<and> external_api throttling_engine (remote_account_id ?entry) ''token'' 1
            = Rejected ValidationRejected ''bad payload''
        \<and> (ValidationRejected = ValidationRejected \<or> ValidationRejected = CredentialInactive)"
    by (simp add: example_resolutions example_runs)
  with non_transient_failure_not_retried
        [where env = throttling_engine and a = 1 and e = ValidationRejected
           and entry = ?entry and cred = "''token''" and m = "''bad payload''" and i = 1
           and oc = "Failure ValidationRejected ''bad payload''" and n = 2,
         THEN conjunct2, THEN conjunct2, THEN conjunct1]
  have third: "(2 :: nat) = Suc 1
      \<and> Failure ValidationRejected ''bad payload'' = Failure ValidationRejected ''bad payload''"
    by (rule mp)
  from first second third show ?thesis
    by (simp add: example_resolutions example_runs)
qed

text \<open>
  C7 as stated fails: with three attempts allowed, an external API that signals a rate
  limit on the first call and rejects the payload on the second leaves the account with
  the outcome \<open>ValidationRejected\<close> after two external calls.
\<close>

theorem retried_then_rejected_counterexample:
  "max_attempts throttling_engine = 3
   \<and> run_account throttling_engine 1 = (Failure ValidationRejected ''bad payload'', 2)
   \<and> \<not> snd (run_account throttling_engine 1) \<le> 1"
  by (simp add: engine_simps)

end
